theory Spec2Isabelle
  imports Complex_Main "HOL-Library.Word" "HOL-Library.Monad_Syntax"
begin

section \<open>JavaScript values used by the typing engine\<close>

text \<open>
  A JavaScript string is a sequence of UTF-16 code units. \<open>text.split('')\<close> yields the
  code units of the text one by one, so the target text is a list of code units and a
  key is a string. Numbers are IEEE doubles in the source; here the finite ones are exact
  rationals and the non-finite results of a division are values of their own, so the
  arithmetic below is the source's formula without its rounding error.
\<close>

type_synonym code_unit = "16 word"
type_synonym jsstring = "code_unit list"

definition js :: "string \<Rightarrow> jsstring" where
  "js s = map (\<lambda>c. of_nat (of_char c)) s"

text \<open>The arrow U+2192 that joins the two halves of a confusion key.\<close>

definition arrow :: code_unit where
  "arrow = 0x2192"

text \<open>String conversion of \<open>testText[cursor]\<close>: a one-unit string, or \<open>undefined\<close>.\<close>

definition to_string :: "code_unit option \<Rightarrow> jsstring" where
  "to_string e = (case e of None \<Rightarrow> js ''undefined'' | Some c \<Rightarrow> [c])"

datatype jsnum = Finite rat | PosInfinity | NegInfinity | NaN

text \<open>Division of two finite numbers, with the results of a zero divisor.\<close>

definition js_div :: "rat \<Rightarrow> rat \<Rightarrow> jsnum" where
  "js_div a b =
     (if b \<noteq> 0 then Finite (a / b)
      else if a = 0 then NaN
      else if 0 < a then PosInfinity else NegInfinity)"

text \<open>\<open>x || 0\<close>: the falsy numbers are 0 and NaN; an infinity is truthy.\<close>

definition or_zero :: "jsnum \<Rightarrow> jsnum" where
  "or_zero x = (case x of NaN \<Rightarrow> Finite 0 | Finite r \<Rightarrow> Finite r
                | PosInfinity \<Rightarrow> PosInfinity | NegInfinity \<Rightarrow> NegInfinity)"

text \<open>\<open>Math.round\<close>: to the nearest integer, a half upwards; an infinity and NaN stay.\<close>

definition round_half_up :: "rat \<Rightarrow> int" where
  "round_half_up x = \<lfloor>x + 1 / 2\<rfloor>"

definition math_round :: "jsnum \<Rightarrow> jsnum" where
  "math_round x = (case x of Finite r \<Rightarrow> Finite (of_int (round_half_up r))
                   | PosInfinity \<Rightarrow> PosInfinity | NegInfinity \<Rightarrow> NegInfinity | NaN \<Rightarrow> NaN)"

text \<open>
  \<open>+x.toFixed(1)\<close>: the multiple of one tenth nearest to \<open>x\<close>, the larger one in
  magnitude at a tie.
\<close>

definition toFixed1 :: "rat \<Rightarrow> rat" where
  "toFixed1 x =
     (if x < 0 then - (of_int (round_half_up (- x * 10)) / 10)
      else of_int (round_half_up (x * 10)) / 10)"

subsection \<open>Objects used as counters\<close>

text \<open>
  \<open>m[k] = (m[k] || 0) + 1\<close> on an object whose values are counts: the entries are kept
  in insertion order.
\<close>

type_synonym 'k counts = "('k \<times> nat) list"

fun count_of :: "'k counts \<Rightarrow> 'k \<Rightarrow> nat" where
  "count_of [] k = 0"
| "count_of ((k', n) # m) k = (if k = k' then n else count_of m k)"

fun bump :: "'k \<Rightarrow> 'k counts \<Rightarrow> 'k counts" where
  "bump k [] = [(k, 1)]"
| "bump k ((k', n) # m) = (if k = k' then (k', n + 1) # m else (k', n) # bump k m)"

definition total :: "'k counts \<Rightarrow> nat" where
  "total m = sum_list (map snd m)"

section \<open>The session engine\<close>

datatype status = Correct | Current | Pending

record latency_summary =
  ls_count :: nat
  ls_avg :: rat
  ls_p50 :: rat
  ls_p90 :: rat
  ls_p99 :: rat

text \<open>
  The session record of \<open>persistSession\<close>. \<open>rec_id\<close> is \<open>Date.now()\<close> and
  \<open>rec_timestamp\<close> the instant that \<open>new Date().toISOString()\<close> prints.
\<close>

record session_record =
  rec_id :: int
  rec_timestamp :: int
  rec_length :: nat
  rec_errors :: nat
  rec_accuracy :: rat
  rec_wpm :: jsnum
  rec_errorMap :: "jsstring counts"
  rec_latency :: "latency_summary option"
  rec_confusions :: "jsstring counts"

text \<open>A call the engine makes on one of its four callbacks, with the argument passed.\<close>

datatype call =
    OnUpdate "(code_unit \<times> status) list" nat nat
  | OnStats jsnum rat nat int
  | OnKey jsstring bool "code_unit option"
  | OnComplete session_record

text \<open>
  The engine's fields, then its collaborators: whether each callback was supplied to the
  constructor (\<open>this.onUpdate?.(...)\<close> calls it only then), the list held by the history
  storage (newest first, as \<open>saveSession\<close> unshifts), and the calls made so far, oldest
  first.
\<close>

record engine =
  testText :: "code_unit list"
  cursor :: nat
  errors :: nat
  errorMap :: "jsstring counts"
  timestamps :: "rat list"
  sessionStart :: "rat option"
  latencies :: "rat list"
  latencyBuckets :: "int counts"
  confusions :: "jsstring counts"
  onUpdate :: bool
  onStats :: bool
  onKey :: bool
  onComplete :: bool
  storage :: "session_record list"
  calls :: "call list"

text \<open>
  The clock values one \<open>handleKey\<close> reads: \<open>performance.now()\<close> at its start and again
  in \<open>elapsedSeconds\<close>, then \<open>Date.now()\<close> and \<open>new Date()\<close> in \<open>persistSession\<close>.
\<close>

record reads =
  now_key :: rat
  now_stats :: rat
  date_now :: int
  date_iso :: int

definition resetSession :: "engine \<Rightarrow> engine" where
  "resetSession s = s\<lparr>testText := [], cursor := 0, errors := 0, errorMap := [],
     timestamps := [], sessionStart := None, latencies := [], latencyBuckets := [],
     confusions := []\<rparr>"

definition status_at :: "nat \<Rightarrow> nat \<Rightarrow> status" where
  "status_at c i = (if i < c then Correct else if i = c then Current else Pending)"

definition render :: "engine \<Rightarrow> (code_unit \<times> status) list" where
  "render s = map (\<lambda>(i, ch). (ch, status_at (cursor s) i)) (enumerate 0 (testText s))"

definition emitUpdate :: "engine \<Rightarrow> engine" where
  "emitUpdate s =
     (if onUpdate s
      then s\<lparr>calls := calls s @ [OnUpdate (render s) (cursor s) (length (testText s))]\<rparr>
      else s)"

definition loadText :: "code_unit list \<Rightarrow> rat \<Rightarrow> engine \<Rightarrow> engine" where
  "loadText text now s =
     emitUpdate (s\<lparr>testText := text, cursor := 0, errors := 0, errorMap := [],
       timestamps := [], sessionStart := Some now\<rparr>)"

definition expectedChar :: "engine \<Rightarrow> code_unit option" where
  "expectedChar s =
     (if cursor s < length (testText s) then Some (testText s ! cursor s) else None)"

definition accuracy :: "engine \<Rightarrow> rat" where
  "accuracy s =
     (let typed = cursor s + errors s in
      if typed = 0 then 100
      else toFixed1 (max 0 (of_nat (cursor s) / of_nat typed * 100)))"

text \<open>\<open>x - null\<close> is \<open>x - 0\<close>.\<close>

definition start_or_zero :: "engine \<Rightarrow> rat" where
  "start_or_zero s = (case sessionStart s of None \<Rightarrow> 0 | Some t \<Rightarrow> t)"

definition wpm :: "engine \<Rightarrow> jsnum" where
  "wpm s =
     (if timestamps s = [] then Finite 0
      else let elapsedMs = last (timestamps s) - start_or_zero s;
               minutes = elapsedMs / 60000;
               words = of_nat (cursor s) / 5
           in math_round (or_zero (js_div words minutes)))"

definition elapsedSeconds :: "rat \<Rightarrow> engine \<Rightarrow> int" where
  "elapsedSeconds now s =
     (case sessionStart s of
        None \<Rightarrow> 0
      | Some t \<Rightarrow> if t = 0 then 0 else \<lfloor>(now - t) / 1000\<rfloor>)"

definition emitStats :: "rat \<Rightarrow> engine \<Rightarrow> engine" where
  "emitStats now s =
     (if onStats s
      then s\<lparr>calls := calls s @ [OnStats (wpm s) (accuracy s) (errors s) (elapsedSeconds now s)]\<rparr>
      else s)"

text \<open>The percentile of \<open>latencySummary\<close>: \<open>p\<close> is 1/2, 9/10 or 99/100.\<close>

definition idx :: "rat list \<Rightarrow> rat \<Rightarrow> rat" where
  "idx srt p = srt ! min (length srt - 1) (nat \<lfloor>p * of_nat (length srt)\<rfloor>)"

definition latencySummary :: "engine \<Rightarrow> latency_summary option" where
  "latencySummary s =
     (if latencies s = [] then None
      else let srt = sort (latencies s);
               sm = foldl (+) 0 srt
           in Some \<lparr>ls_count = length srt,
                    ls_avg = toFixed1 (sm / of_nat (length srt)),
                    ls_p50 = toFixed1 (idx srt (1 / 2)),
                    ls_p90 = toFixed1 (idx srt (9 / 10)),
                    ls_p99 = toFixed1 (idx srt (99 / 100))\<rparr>)"

definition session_record_of :: "reads \<Rightarrow> engine \<Rightarrow> session_record" where
  "session_record_of r s =
     \<lparr>rec_id = date_now r, rec_timestamp = date_iso r, rec_length = length (testText s),
      rec_errors = errors s, rec_accuracy = accuracy s, rec_wpm = wpm s,
      rec_errorMap = errorMap s, rec_latency = latencySummary s,
      rec_confusions = confusions s\<rparr>"

definition saveSession :: "session_record \<Rightarrow> session_record list \<Rightarrow> session_record list" where
  "saveSession entry list = entry # list"

definition persistSession :: "reads \<Rightarrow> engine \<Rightarrow> engine" where
  "persistSession r s =
     (let record = session_record_of r s;
          s1 = s\<lparr>storage := saveSession record (storage s)\<rparr>
      in if onComplete s1 then s1\<lparr>calls := calls s1 @ [OnComplete record]\<rparr> else s1)"

text \<open>The reference time of a keystroke: \<open>this.timestamps.at(-1) ?? this.sessionStart\<close>.\<close>

definition lastCorrectTs :: "engine \<Rightarrow> rat option" where
  "lastCorrectTs s = (if timestamps s = [] then sessionStart s else Some (last (timestamps s)))"

text \<open>\<open>lastCorrectTs ? now - lastCorrectTs : 0\<close>: \<open>null\<close> and 0 are falsy.\<close>

definition interval_of :: "rat \<Rightarrow> engine \<Rightarrow> rat" where
  "interval_of now s =
     (case lastCorrectTs s of
        None \<Rightarrow> 0
      | Some t \<Rightarrow> if t = 0 then 0 else now - t)"

definition bucket_of :: "rat \<Rightarrow> int" where
  "bucket_of interval = min 4000 (round_half_up (interval / 50) * 50)"

definition is_correct :: "jsstring \<Rightarrow> code_unit option \<Rightarrow> bool" where
  "is_correct key expected = (case expected of None \<Rightarrow> False | Some c \<Rightarrow> key = [c])"

definition on_correct :: "rat \<Rightarrow> rat \<Rightarrow> engine \<Rightarrow> engine" where
  "on_correct now interval s =
     (let s1 = s\<lparr>cursor := cursor s + 1, timestamps := timestamps s @ [now]\<rparr>
      in if interval \<noteq> 0 \<and> interval < 5000
         then s1\<lparr>latencies := latencies s1 @ [interval],
                 latencyBuckets := bump (bucket_of interval) (latencyBuckets s1)\<rparr>
         else s1)"

definition on_error :: "jsstring \<Rightarrow> code_unit option \<Rightarrow> engine \<Rightarrow> engine" where
  "on_error key expected s =
     s\<lparr>errors := errors s + 1,
       errorMap := bump (to_string expected) (errorMap s),
       confusions := bump (to_string expected @ [arrow] @ key) (confusions s)\<rparr>"

definition emitKey :: "jsstring \<Rightarrow> bool \<Rightarrow> code_unit option \<Rightarrow> engine \<Rightarrow> engine" where
  "emitKey key correct expected s =
     (if onKey s then s\<lparr>calls := calls s @ [OnKey key correct expected]\<rparr> else s)"

definition handleKey :: "jsstring \<Rightarrow> reads \<Rightarrow> engine \<Rightarrow> engine" where
  "handleKey key r s =
     (if testText s = [] then s
      else let expected = expectedChar s;
               correct = is_correct key expected;
               now = now_key r;
               interval = interval_of now s;
               s1 = (if correct then on_correct now interval s else on_error key expected s);
               finished = (length (testText s1) \<le> cursor s1);
               s2 = emitStats (now_stats r) (emitUpdate (emitKey key correct expected s1))
           in if finished then persistSession r s2 else s2)"

text \<open>
  The constructor: the callbacks and the storage are kept, then \<open>resetSession\<close> runs.
  No call has been made yet.
\<close>

definition new_engine :: "bool \<Rightarrow> bool \<Rightarrow> bool \<Rightarrow> bool \<Rightarrow> session_record list \<Rightarrow> engine" where
  "new_engine u st k c hist =
     resetSession \<lparr>testText = [], cursor = 0, errors = 0, errorMap = [], timestamps = [],
       sessionStart = None, latencies = [], latencyBuckets = [], confusions = [],
       onUpdate = u, onStats = st, onKey = k, onComplete = c, storage = hist, calls = []\<rparr>"

text \<open>The calls made on the completion callback, among the calls made.\<close>

fun is_completion :: "call \<Rightarrow> bool" where
  "is_completion (OnComplete rec) = True"
| "is_completion c = False"

definition completions :: "call list \<Rightarrow> call list" where
  "completions cs = filter is_completion cs"

text \<open>A sequence of keystrokes, each with the clock values read while it is handled.\<close>

fun handleKeys :: "(jsstring \<times> reads) list \<Rightarrow> engine \<Rightarrow> engine" where
  "handleKeys [] s = s"
| "handleKeys ((key, r) # ks) s = handleKeys ks (handleKey key r s)"

section \<open>The suggestion engine\<close>

text \<open>
  An error map handed to \<open>generateSuggestions\<close> is the list of its entries as
  \<open>Object.entries\<close> yields them, a count being a non-negative integer. Of a history
  session only the \<open>errorMap\<close> property is read; it may be missing (\<open>s.errorMap || {}\<close>),
  as the current error map may be (\<open>currentErrorMap || {}\<close>). \<open>maxn\<close>, the
  source's \<open>max\<close>, is a number of entries.
\<close>

type_synonym aggregate = "(jsstring \<times> rat) list"

text \<open>\<open>aggregate.get(char) || 0\<close> and \<open>aggregate.set(char, v)\<close> on a Map, which keeps
  its keys in insertion order.\<close>

fun get_or_zero :: "aggregate \<Rightarrow> jsstring \<Rightarrow> rat" where
  "get_or_zero [] k = 0"
| "get_or_zero ((k', v) # m) k = (if k = k' then v else get_or_zero m k)"

fun map_set :: "jsstring \<Rightarrow> rat \<Rightarrow> aggregate \<Rightarrow> aggregate" where
  "map_set k v [] = [(k, v)]"
| "map_set k v ((k', v') # m) = (if k = k' then (k', v) # m else (k', v') # map_set k v m)"

text \<open>
  One \<open>forEach\<close> over the entries of an error map: \<open>f count\<close> is what the loop adds,
  \<open>count\<close> for a history session and \<open>count * 1.2\<close> for the current session.
\<close>

definition add_entries :: "(nat \<Rightarrow> rat) \<Rightarrow> jsstring counts \<Rightarrow> aggregate \<Rightarrow> aggregate" where
  "add_entries f es agg =
     fold (\<lambda>(char, count) a. map_set char (get_or_zero a char + f count) a) es agg"

definition entries_or_empty :: "jsstring counts option \<Rightarrow> jsstring counts" where
  "entries_or_empty m = (case m of None \<Rightarrow> [] | Some es \<Rightarrow> es)"

text \<open>The code units that \<open>\s\<close> matches: white space and line terminators.\<close>

definition white_space :: "code_unit \<Rightarrow> bool" where
  "white_space c =
     (c \<in> set [0x9, 0xA, 0xB, 0xC, 0xD, 0x20, 0xA0, 0x1680, 0x2028, 0x2029, 0x202F,
                0x205F, 0x3000, 0xFEFF]
      \<or> (0x2000 \<le> c \<and> c \<le> 0x200A))"

definition isWhitespace :: "jsstring \<Rightarrow> bool" where
  "isWhitespace char = list_ex white_space char"

definition rarityBoost :: "jsstring \<Rightarrow> rat" where
  "rarityBoost char = (if isWhitespace char then 2 / 5 else 1)"

definition current_weight :: "nat \<Rightarrow> rat" where
  "current_weight count = of_nat count * (6 / 5)"

definition generateSuggestions ::
  "jsstring counts option list \<Rightarrow> jsstring counts option \<Rightarrow> nat \<Rightarrow> (jsstring \<times> rat) list" where
  "generateSuggestions historySessions currentErrorMap maxn =
     (let aggregate = fold (\<lambda>s a. add_entries of_nat (entries_or_empty s) a) historySessions [];
          aggregate = add_entries current_weight (entries_or_empty currentErrorMap) aggregate;
          scored = map (\<lambda>(char, count). (char, count * rarityBoost char)) aggregate;
          scored = sort_key (\<lambda>(char, score). - score) scored
      in take maxn scored)"

subsection \<open>The same function on a store of objects\<close>

text \<open>
  The arguments of \<open>generateSuggestions\<close> are references to objects that the caller
  keeps. Here the objects live in a store, an address being an index into it: the
  history array holds the addresses of the session objects, a session object the address
  of its error map. The function allocates its own objects (the Map \<open>aggregate\<close>, the
  copy \<open>consider\<close>, the arrays \<open>scored\<close> and the result) and writes to the store with
  \<open>aggregate.set\<close> and with \<open>scored.sort\<close>, which sorts in place. A read of an address
  that holds no object of the expected kind has no result.
\<close>

datatype obj =
    ErrorMapObj "jsstring counts"
  | SessionObj "nat option"
  | ArrayObj "nat list"
  | MapObj aggregate
  | PairsObj "(jsstring \<times> rat) list"

type_synonym heap = "obj list"

definition heap_get :: "heap \<Rightarrow> nat \<Rightarrow> obj option" where
  "heap_get h a = (if a < length h then Some (h ! a) else None)"

definition heap_set :: "nat \<Rightarrow> obj \<Rightarrow> heap \<Rightarrow> heap" where
  "heap_set a v h = h[a := v]"

definition alloc :: "obj \<Rightarrow> heap \<Rightarrow> nat \<times> heap" where
  "alloc v h = (length h, h @ [v])"

definition get_errorMap :: "heap \<Rightarrow> nat \<Rightarrow> jsstring counts option" where
  "get_errorMap h a = (case heap_get h a of Some (ErrorMapObj es) \<Rightarrow> Some es | _ \<Rightarrow> None)"

definition get_array :: "heap \<Rightarrow> nat \<Rightarrow> nat list option" where
  "get_array h a = (case heap_get h a of Some (ArrayObj refs) \<Rightarrow> Some refs | _ \<Rightarrow> None)"

definition get_map :: "heap \<Rightarrow> nat \<Rightarrow> aggregate option" where
  "get_map h a = (case heap_get h a of Some (MapObj m) \<Rightarrow> Some m | _ \<Rightarrow> None)"

definition get_pairs :: "heap \<Rightarrow> nat \<Rightarrow> (jsstring \<times> rat) list option" where
  "get_pairs h a = (case heap_get h a of Some (PairsObj ps) \<Rightarrow> Some ps | _ \<Rightarrow> None)"

text \<open>\<open>Object.entries(s.errorMap || {})\<close> for the session object at \<open>s\<close>.\<close>

definition session_entries :: "heap \<Rightarrow> nat \<Rightarrow> jsstring counts option" where
  "session_entries h s =
     (case heap_get h s of
        Some (SessionObj None) \<Rightarrow> Some []
      | Some (SessionObj (Some m)) \<Rightarrow> get_errorMap h m
      | _ \<Rightarrow> None)"

text \<open>\<open>Object.entries(currentErrorMap || {})\<close>.\<close>

definition current_entries :: "heap \<Rightarrow> nat option \<Rightarrow> jsstring counts option" where
  "current_entries h c = (case c of None \<Rightarrow> Some [] | Some m \<Rightarrow> get_errorMap h m)"

text \<open>\<open>aggregate.set(char, (aggregate.get(char) || 0) + v)\<close> on the Map at \<open>agg\<close>.\<close>

definition aggregate_add :: "nat \<Rightarrow> jsstring \<Rightarrow> rat \<Rightarrow> heap \<Rightarrow> heap option" where
  "aggregate_add agg char v h =
     do { m \<leftarrow> get_map h agg;
          Some (heap_set agg (MapObj (map_set char (get_or_zero m char + v) m)) h) }"

fun add_entries_h :: "nat \<Rightarrow> (nat \<Rightarrow> rat) \<Rightarrow> jsstring counts \<Rightarrow> heap \<Rightarrow> heap option" where
  "add_entries_h agg f [] h = Some h"
| "add_entries_h agg f ((char, count) # es) h =
     do { h' \<leftarrow> aggregate_add agg char (f count) h; add_entries_h agg f es h' }"

fun add_sessions_h :: "nat \<Rightarrow> nat list \<Rightarrow> heap \<Rightarrow> heap option" where
  "add_sessions_h agg [] h = Some h"
| "add_sessions_h agg (s # ss) h =
     do { es \<leftarrow> session_entries h s;
          h' \<leftarrow> add_entries_h agg of_nat es h;
          add_sessions_h agg ss h' }"

definition generateSuggestions_h ::
  "nat \<Rightarrow> nat option \<Rightarrow> nat \<Rightarrow> heap \<Rightarrow> ((jsstring \<times> rat) list \<times> heap) option" where
  "generateSuggestions_h historySessions currentErrorMap maxn h0 =
     do { let (aggregate, h1) = alloc (MapObj []) h0;
          refs \<leftarrow> get_array h1 historySessions;
          let (consider, h2) = alloc (ArrayObj refs) h1;
          cs \<leftarrow> get_array h2 consider;
          h3 \<leftarrow> add_sessions_h aggregate cs h2;
          es \<leftarrow> current_entries h3 currentErrorMap;
          h4 \<leftarrow> add_entries_h aggregate current_weight es h3;
          m \<leftarrow> get_map h4 aggregate;
          let (scored, h5) =
            alloc (PairsObj (map (\<lambda>(char, count). (char, count * rarityBoost char)) m)) h4;
          ps \<leftarrow> get_pairs h5 scored;
          let h6 = heap_set scored (PairsObj (sort_key (\<lambda>(char, score). - score) ps)) h5;
          ps' \<leftarrow> get_pairs h6 scored;
          let (result, h7) = alloc (PairsObj (take maxn ps')) h6;
          r \<leftarrow> get_pairs h7 result;
          Some (r, h7) }"

text \<open>
  What the arguments denote in a store: the error map of each history session in order
  (\<open>None\<close> for a session without one), and the current error map.
\<close>

definition session_view :: "heap \<Rightarrow> nat \<Rightarrow> jsstring counts option option" where
  "session_view h s =
     (case heap_get h s of
        Some (SessionObj None) \<Rightarrow> Some None
      | Some (SessionObj (Some m)) \<Rightarrow> map_option Some (get_errorMap h m)
      | _ \<Rightarrow> None)"

definition history_view :: "heap \<Rightarrow> nat \<Rightarrow> jsstring counts option list option" where
  "history_view h a = do { refs \<leftarrow> get_array h a; those (map (session_view h) refs) }"

definition current_view :: "heap \<Rightarrow> nat option \<Rightarrow> jsstring counts option option" where
  "current_view h c = (case c of None \<Rightarrow> Some None | Some m \<Rightarrow> map_option Some (get_errorMap h m))"

text \<open>A store that still holds, unchanged, every object of an earlier store.\<close>

definition extends :: "heap \<Rightarrow> heap \<Rightarrow> bool" where
  "extends h0 h = (length h0 \<le> length h \<and> take (length h0) h = h0)"

subsection \<open>The ranking in the words of its description\<close>






subsection \<open>Example values\<close>

text \<open>An engine built with all four callbacks over an empty history, and a clock value
  read throughout one keystroke.\<close>

definition fresh_engine :: engine where
  "fresh_engine = new_engine True True True True []"

definition at_time :: "rat \<Rightarrow> reads" where
  "at_time t = \<lparr>now_key = t, now_stats = t, date_now = 1700000000000, date_iso = 1700000000000\<rparr>"

text \<open>A store with one history session, whose error map counts 3 for \<open>t\<close>, the
  history array at address 2 and a current error map, which counts 2 for \<open>t\<close>, at
  address 3.\<close>

definition example_heap :: heap where
  "example_heap = [ErrorMapObj [(js ''t'', 3)], SessionObj (Some 0), ArrayObj [1],
                   ErrorMapObj [(js ''t'', 2)]]"

section \<open>Properties of the session engine\<close>

subsection \<open>Auxiliary facts\<close>


lemma count_of_bump: "count_of (bump k m) = (count_of m)(k := count_of m k + 1)"
  by (induction m) (auto simp: fun_eq_iff)

lemma total_bump: "total (bump k m) = total m + 1"
  by (induction m) (auto simp: total_def)

text \<open>The callbacks and the storage leave the session's own fields alone.\<close>

lemma emit_fields:
  "testText (emitUpdate s) = testText s" "cursor (emitUpdate s) = cursor s"
  "errors (emitUpdate s) = errors s" "errorMap (emitUpdate s) = errorMap s"
  "timestamps (emitUpdate s) = timestamps s" "sessionStart (emitUpdate s) = sessionStart s"
  "latencies (emitUpdate s) = latencies s" "latencyBuckets (emitUpdate s) = latencyBuckets s"
  "confusions (emitUpdate s) = confusions s" "storage (emitUpdate s) = storage s"
  "testText (emitStats n s) = testText s" "cursor (emitStats n s) = cursor s"
  "errors (emitStats n s) = errors s" "errorMap (emitStats n s) = errorMap s"
  "timestamps (emitStats n s) = timestamps s" "sessionStart (emitStats n s) = sessionStart s"
  "latencies (emitStats n s) = latencies s" "latencyBuckets (emitStats n s) = latencyBuckets s"
  "confusions (emitStats n s) = confusions s" "storage (emitStats n s) = storage s"
  "testText (emitKey k c e s) = testText s" "cursor (emitKey k c e s) = cursor s"
  "errors (emitKey k c e s) = errors s" "errorMap (emitKey k c e s) = errorMap s"
  "timestamps (emitKey k c e s) = timestamps s" "sessionStart (emitKey k c e s) = sessionStart s"
  "latencies (emitKey k c e s) = latencies s" "latencyBuckets (emitKey k c e s) = latencyBuckets s"
  "confusions (emitKey k c e s) = confusions s" "storage (emitKey k c e s) = storage s"
  "testText (persistSession r s) = testText s" "cursor (persistSession r s) = cursor s"
  "errors (persistSession r s) = errors s" "errorMap (persistSession r s) = errorMap s"
  "timestamps (persistSession r s) = timestamps s" "sessionStart (persistSession r s) = sessionStart s"
  "latencies (persistSession r s) = latencies s" "latencyBuckets (persistSession r s) = latencyBuckets s"
  "confusions (persistSession r s) = confusions s"
  by (simp_all add: emitUpdate_def emitStats_def emitKey_def persistSession_def Let_def)

lemma handleKey_empty: "testText s = [] \<Longrightarrow> handleKey key r s = s"
  by (simp add: handleKey_def)

text \<open>What one keystroke does to the text, the cursor and the error counters.\<close>

lemma handleKey_core:
  assumes "testText s \<noteq> []"
  shows "testText (handleKey key r s) = testText s"
    and "cursor (handleKey key r s) = (if is_correct key (expectedChar s) then cursor s + 1 else cursor s)"
    and "errors (handleKey key r s) = (if is_correct key (expectedChar s) then errors s else errors s + 1)"
    and "errorMap (handleKey key r s) =
          (if is_correct key (expectedChar s) then errorMap s
           else bump (to_string (expectedChar s)) (errorMap s))"
    and "confusions (handleKey key r s) =
          (if is_correct key (expectedChar s) then confusions s
           else bump (to_string (expectedChar s) @ [arrow] @ key) (confusions s))"
  using assms
  by (simp_all add: handleKey_def Let_def emit_fields on_correct_def on_error_def)

lemma handleKeys_counters:
  assumes "testText s \<noteq> []"
  shows "cursor (handleKeys ks s) + errors (handleKeys ks s) = cursor s + errors s + length ks \<and>
         total (errorMap (handleKeys ks s)) + errors s = total (errorMap s) + errors (handleKeys ks s) \<and>
         total (confusions (handleKeys ks s)) + errors s = total (confusions s) + errors (handleKeys ks s)"
  using assms
proof (induction ks arbitrary: s)
  case Nil
  show ?case by simp
next
  case (Cons k ks)
  obtain key r where k: "k = (key, r)" by (cases k)
  let ?s1 = "handleKey key r s"
  have ne: "testText ?s1 \<noteq> []" using Cons.prems by (simp add: handleKey_core)
  have step: "cursor ?s1 + errors ?s1 = cursor s + errors s + 1"
    "total (errorMap ?s1) + errors s + 1 = total (errorMap s) + errors ?s1 + 1"
    "total (confusions ?s1) + errors s + 1 = total (confusions s) + errors ?s1 + 1"
    using Cons.prems by (simp_all add: handleKey_core total_bump)
  from Cons.IH [OF ne] step show ?case
    unfolding k by simp
qed



lemma handleKey_cursor_mono: "cursor s \<le> cursor (handleKey key r s)"
  by (cases "testText s = []") (simp_all add: handleKey_empty handleKey_core)



lemma floor_half: "\<lfloor>1 / 2 :: rat\<rfloor> = 0"
  using floor_divide_of_int_eq [of 1 2, where ?'a = rat] by simp





lemma emit_completions:
  "completions (calls (emitUpdate s)) = completions (calls s)"
  "completions (calls (emitStats n s)) = completions (calls s)"
  "completions (calls (emitKey k c e s)) = completions (calls s)"
  by (simp_all add: emitUpdate_def emitStats_def emitKey_def completions_def)

lemma loadText_frame:
  "storage (loadText text now s) = storage s"
  "completions (calls (loadText text now s)) = completions (calls s)"
  by (simp_all add: loadText_def emit_fields emit_completions)

lemma key_step_frame:
  "storage (on_correct now i s) = storage s" "calls (on_correct now i s) = calls s"
  "storage (on_error key e s) = storage s" "calls (on_error key e s) = calls s"
  "testText (on_correct now i s) = testText s" "testText (on_error key e s) = testText s"
  by (simp_all add: on_correct_def on_error_def Let_def)

text \<open>A keystroke either leaves the history and the completion calls as they are, or it
  has brought the cursor to the end of a non-empty text and has stored one record.\<close>

lemma handleKey_storage:
  "storage (handleKey key r s) = storage s \<and> completions (calls (handleKey key r s)) = completions (calls s) \<or>
   testText s \<noteq> [] \<and> length (testText s) \<le> cursor (handleKey key r s) \<and>
   (\<exists>rec. storage (handleKey key r s) = rec # storage s)"
proof (cases "testText s = []")
  case True
  then show ?thesis by (simp add: handleKey_empty)
next
  case False
  define s1 where "s1 = (if is_correct key (expectedChar s)
      then on_correct (now_key r) (interval_of (now_key r) s) s
      else on_error key (expectedChar s) s)"
  define s2 where "s2 = emitStats (now_stats r)
      (emitUpdate (emitKey key (is_correct key (expectedChar s)) (expectedChar s) s1))"
  have hk: "handleKey key r s = (if length (testText s1) \<le> cursor s1 then persistSession r s2 else s2)"
    using False by (simp add: handleKey_def Let_def s1_def s2_def)
  have s1: "testText s1 = testText s" "storage s1 = storage s" "calls s1 = calls s"
    by (simp_all add: s1_def key_step_frame)
  have s2: "storage s2 = storage s" "completions (calls s2) = completions (calls s)" "cursor s2 = cursor s1"
    by (simp_all add: s2_def emit_fields emit_completions s1)
  show ?thesis
  proof (cases "length (testText s1) \<le> cursor s1")
    case True
    then have "handleKey key r s = persistSession r s2" by (simp add: hk)
    then show ?thesis using True False
      by (simp add: emit_fields s2 s1 persistSession_def saveSession_def Let_def)
  next
    case nf: False
    then have "handleKey key r s = s2" by (simp add: hk)
    then show ?thesis by (simp add: s2)
  qed
qed

lemma handleKeys_cursor_mono: "cursor s \<le> cursor (handleKeys ks s)"
proof (induction ks arbitrary: s)
  case Nil
  show ?case by simp
next
  case (Cons k ks)
  obtain key r where k: "k = (key, r)" by (cases k)
  from Cons [of "handleKey key r s"] handleKey_cursor_mono [of s key r]
  show ?case unfolding k by simp
qed

lemma handleKeys_testText: "testText (handleKeys ks s) = testText s"
proof (induction ks arbitrary: s)
  case Nil
  show ?case by simp
next
  case (Cons k ks)
  obtain key r where k: "k = (key, r)" by (cases k)
  have "testText (handleKey key r s) = testText s"
    by (cases "testText s = []") (simp_all add: handleKey_empty handleKey_core)
  with Cons k show ?case by simp
qed

text \<open>While the cursor is inside the text, nothing has been stored or completed.\<close>

lemma handleKeys_in_progress:
  "cursor (handleKeys ks s) < length (testText s) \<Longrightarrow>
     storage (handleKeys ks s) = storage s \<and>
     completions (calls (handleKeys ks s)) = completions (calls s)"
proof (induction ks arbitrary: s)
  case Nil
  show ?case by simp
next
  case (Cons k ks)
  obtain key r where k: "k = (key, r)" by (cases k)
  let ?s1 = "handleKey key r s"
  have tt: "testText ?s1 = testText s"
    using handleKeys_testText [of "[(key, r)]" s] by simp
  from Cons.prems k have fin: "cursor (handleKeys ks ?s1) < length (testText ?s1)"
    by (simp add: tt)
  from fin handleKeys_cursor_mono [of ?s1 ks] have "cursor ?s1 < length (testText s)"
    by (simp add: tt)
  with handleKey_storage [of key r s]
  have "storage ?s1 = storage s \<and> completions (calls ?s1) = completions (calls s)"
    by auto
  with Cons.IH [OF fin] show ?case unfolding k by simp
qed


text \<open>
  What a load does reset: the text, the cursor, the error counter, the error map, the
  timestamps and the start time; and the one call it makes on the render callback, where
  the first character is current and the others are pending.
\<close>

lemma render_after_load:
  "map (\<lambda>(i, ch). (ch, status_at 0 i)) (enumerate (Suc n) xs) = map (\<lambda>ch. (ch, Pending)) xs"
  by (induction xs arbitrary: n) (simp_all add: status_at_def)

lemma status_at_zero: "status_at 0 0 = Current"
  by (simp add: status_at_def)

lemma loadText_resets:
  "testText (loadText text now s) = text \<and> cursor (loadText text now s) = 0 \<and>
   errors (loadText text now s) = 0 \<and> errorMap (loadText text now s) = [] \<and>
   timestamps (loadText text now s) = [] \<and> sessionStart (loadText text now s) = Some now \<and>
   calls (loadText text now s) =
     (if onUpdate s
      then calls s @ [OnUpdate (case text of [] \<Rightarrow> [] | c # cs \<Rightarrow> (c, Current) # map (\<lambda>ch. (ch, Pending)) cs)
                        0 (length text)]
      else calls s)"
  by (cases "text") (simp_all add: loadText_def emitUpdate_def render_def render_after_load status_at_zero)

text \<open>
  The words per minute by cases: no correct keystroke yet; no time elapsed between the
  load and the last correct keystroke; and the usual case.
\<close>

lemma wpm_formula:
  "wpm s =
     (if timestamps s = [] then Finite 0
      else if last (timestamps s) = start_or_zero s
        then (if cursor s = 0 then Finite 0 else PosInfinity)
      else Finite (of_int \<lfloor>(rat_of_nat (cursor s) / 5) / ((last (timestamps s) - start_or_zero s) / 60000) + 1 / 2\<rfloor>))"
  by (simp add: wpm_def Let_def js_div_def or_zero_def math_round_def round_half_up_def floor_half)

subsection \<open>Latency samples\<close>



subsection \<open>Counting keystrokes\<close>

text \<open>
  Claim C4. After a load of a non-empty text, whatever keystrokes follow, the cursor and
  the error counter add up to the number of keystrokes, and the counts of the error map
  add up to the error counter. The confusion map, which a load keeps, has grown by one
  count per error as well.
\<close>

theorem keystroke_counters:
  assumes "text \<noteq> []"
  shows "cursor (handleKeys ks (loadText text now s)) + errors (handleKeys ks (loadText text now s))
           = length ks \<and>
         total (errorMap (handleKeys ks (loadText text now s)))
           = errors (handleKeys ks (loadText text now s)) \<and>
         total (confusions (handleKeys ks (loadText text now s)))
           = total (confusions s) + errors (handleKeys ks (loadText text now s))"
proof -
  let ?s0 = "loadText text now s"
  have l: "testText ?s0 = text" "cursor ?s0 = 0" "errors ?s0 = 0" "errorMap ?s0 = []"
    "confusions ?s0 = confusions s"
    by (simp_all add: loadText_def emit_fields)
  from assms l have ne: "testText ?s0 \<noteq> []" by simp
  from handleKeys_counters [OF ne, of ks] show ?thesis
    by (simp add: l total_def)
qed

theorem keystroke_counters_witness:
  "js ''ab'' \<noteq> [] \<and>
   cursor (handleKeys [(js ''a'', at_time 1100), (js ''x'', at_time 1200)]
             (loadText (js ''ab'') 1000 fresh_engine))
     + errors (handleKeys [(js ''a'', at_time 1100), (js ''x'', at_time 1200)]
                 (loadText (js ''ab'') 1000 fresh_engine)) = 2 \<and>
   total (errorMap (handleKeys [(js ''a'', at_time 1100), (js ''x'', at_time 1200)]
                      (loadText (js ''ab'') 1000 fresh_engine))) = 1"
proof -
  have ne: "js ''ab'' \<noteq> []" by code_simp
  have e: "errors (handleKeys [(js ''a'', at_time 1100), (js ''x'', at_time 1200)]
                     (loadText (js ''ab'') 1000 fresh_engine)) = 1"
    by code_simp
  from keystroke_counters [OF ne, of "[(js ''a'', at_time 1100), (js ''x'', at_time 1200)]" 1000 fresh_engine]
    ne e
  show ?thesis by simp
qed

subsection \<open>A wrong key\<close>

text \<open>
  Claim C5. In a session whose cursor is inside the text, a key other than the expected
  character leaves the cursor where it is, adds one to the error counter, adds one to the
  error map's count for the expected character and to no other, and adds one to the
  confusion map's count for the expected character, the arrow and the key, and to no
  other.
\<close>

theorem handleKey_incorrect:
  assumes "cursor s < length (testText s)" and "key \<noteq> [testText s ! cursor s]"
  shows "cursor (handleKey key r s) = cursor s \<and>
         errors (handleKey key r s) = errors s + 1 \<and>
         count_of (errorMap (handleKey key r s)) =
           (count_of (errorMap s))([testText s ! cursor s] :=
              count_of (errorMap s) [testText s ! cursor s] + 1) \<and>
         count_of (confusions (handleKey key r s)) =
           (count_of (confusions s))([testText s ! cursor s] @ [arrow] @ key :=
              count_of (confusions s) ([testText s ! cursor s] @ [arrow] @ key) + 1)"
proof -
  from assms(1) have ne: "testText s \<noteq> []" by auto
  from assms have wrong: "\<not> is_correct key (expectedChar s)"
    by (simp add: is_correct_def expectedChar_def)
  from assms(1) have ex: "to_string (expectedChar s) = [testText s ! cursor s]"
    by (simp add: to_string_def expectedChar_def)
  show ?thesis
    using wrong ex by (simp add: handleKey_core [OF ne] count_of_bump)
qed

theorem handleKey_incorrect_witness:
  "cursor (loadText (js ''ab'') 1000 fresh_engine)
     < length (testText (loadText (js ''ab'') 1000 fresh_engine)) \<and>
   js ''x'' \<noteq> [testText (loadText (js ''ab'') 1000 fresh_engine)
                  ! cursor (loadText (js ''ab'') 1000 fresh_engine)] \<and>
   cursor (handleKey (js ''x'') (at_time 1100) (loadText (js ''ab'') 1000 fresh_engine)) = 0 \<and>
   errors (handleKey (js ''x'') (at_time 1100) (loadText (js ''ab'') 1000 fresh_engine)) = 1 \<and>
   count_of (errorMap (handleKey (js ''x'') (at_time 1100) (loadText (js ''ab'') 1000 fresh_engine)))
     (js ''a'') = 1 \<and>
   count_of (confusions (handleKey (js ''x'') (at_time 1100) (loadText (js ''ab'') 1000 fresh_engine)))
     (js ''a'' @ [arrow] @ js ''x'') = 1"
proof -
  let ?s = "loadText (js ''ab'') 1000 fresh_engine"
  have h1: "cursor ?s < length (testText ?s)" by code_simp
  have h2: "js ''x'' \<noteq> [testText ?s ! cursor ?s]" by code_simp
  have e: "[testText ?s ! cursor ?s] = js ''a''" by code_simp
  have v: "cursor ?s = 0" "errors ?s = 0" "errorMap ?s = []" "confusions ?s = []"
    by code_simp+
  note c = handleKey_incorrect [OF h1 h2, of "at_time 1100", unfolded e, unfolded v]
  from c h1 h2 show ?thesis by simp
qed

subsection \<open>Accuracy\<close>



subsection \<open>Abandoning a session\<close>

text \<open>
  Claim C10. A load never touches the history and never calls the completion callback.
  A keystroke stores a record only when it leaves the cursor at the end of a non-empty
  text. So when a session still in progress (its cursor before the end of its text) is
  replaced by a load, the history and the completion calls are what they were when the
  session started.
\<close>

theorem abandoned_session_not_persisted:
  "storage (loadText text now s) = storage s \<and>
   completions (calls (loadText text now s)) = completions (calls s) \<and>
   (storage (handleKey key r s) = storage s \<and>
      completions (calls (handleKey key r s)) = completions (calls s) \<or>
    testText s \<noteq> [] \<and> length (testText s) \<le> cursor (handleKey key r s)) \<and>
   (cursor (handleKeys ks s) < length (testText s) \<longrightarrow>
      storage (loadText text now (handleKeys ks s)) = storage s \<and>
      completions (calls (loadText text now (handleKeys ks s))) = completions (calls s))"
  using handleKey_storage [of key r s] handleKeys_in_progress [of ks s]
  by (auto simp: loadText_frame)

theorem abandoned_session_not_persisted_witness:
  "cursor (handleKeys [(js ''a'', at_time 1100), (js ''x'', at_time 1200)]
             (loadText (js ''ab'') 1000 fresh_engine))
     < length (testText (loadText (js ''ab'') 1000 fresh_engine)) \<and>
   storage (loadText (js ''cd'') 2000
              (handleKeys [(js ''a'', at_time 1100), (js ''x'', at_time 1200)]
                 (loadText (js ''ab'') 1000 fresh_engine))) = [] \<and>
   completions (calls (loadText (js ''cd'') 2000
              (handleKeys [(js ''a'', at_time 1100), (js ''x'', at_time 1200)]
                 (loadText (js ''ab'') 1000 fresh_engine)))) = []"
proof -
  let ?s = "loadText (js ''ab'') 1000 fresh_engine"
  let ?ks = "[(js ''a'', at_time 1100), (js ''x'', at_time 1200)]"
  have h: "cursor (handleKeys ?ks ?s) < length (testText ?s)" by code_simp
  have v: "storage ?s = []" "completions (calls ?s) = []" by code_simp+
  from abandoned_session_not_persisted [of "js ''cd''" 2000 ?s "js ''a''" "at_time 1100" ?ks] h v
  show ?thesis by simp
qed

subsection \<open>Keystrokes after the end of the text\<close>

text \<open>
  Claim C1, at an input where the code departs from it. \<open>handleKey\<close> returns at once
  only for an empty text (lemma \<open>handleKey_empty\<close>). After \<open>a\<close> has been loaded and
  typed, the session is finished and one record is stored; a further key \<open>b\<close> is then
  compared with \<open>undefined\<close>, counted as an error against the key \<open>undefined\<close>, and
  the session is stored and reported a second time.
\<close>

theorem keystroke_after_completion:
  "cursor (handleKey (js ''a'') (at_time 1100) (loadText (js ''a'') 1000 fresh_engine))
     = length (testText (handleKey (js ''a'') (at_time 1100) (loadText (js ''a'') 1000 fresh_engine))) \<and>
   length (storage (handleKey (js ''a'') (at_time 1100) (loadText (js ''a'') 1000 fresh_engine))) = 1 \<and>
   length (completions (calls (handleKey (js ''a'') (at_time 1100)
     (loadText (js ''a'') 1000 fresh_engine)))) = 1 \<and>
   errors (handleKey (js ''b'') (at_time 1200)
     (handleKey (js ''a'') (at_time 1100) (loadText (js ''a'') 1000 fresh_engine))) = 1 \<and>
   errorMap (handleKey (js ''b'') (at_time 1200)
     (handleKey (js ''a'') (at_time 1100) (loadText (js ''a'') 1000 fresh_engine)))
     = [(js ''undefined'', 1)] \<and>
   length (storage (handleKey (js ''b'') (at_time 1200)
     (handleKey (js ''a'') (at_time 1100) (loadText (js ''a'') 1000 fresh_engine)))) = 2 \<and>
   length (completions (calls (handleKey (js ''b'') (at_time 1200)
     (handleKey (js ''a'') (at_time 1100) (loadText (js ''a'') 1000 fresh_engine))))) = 2"
  by code_simp

subsection \<open>What a load leaves behind\<close>

text \<open>
  Claim C2, at an input where the code departs from it. A load resets what lemma
  \<open>loadText_resets\<close> lists and makes the one render call described there, but it keeps
  the confusion map, the latency samples and their histogram, which only
  \<open>resetSession\<close> clears: after \<open>ab\<close> was loaded at time 1000, \<open>x\<close> typed at 1100 and
  \<open>a\<close> at 1200, a load of \<open>cd\<close> still holds the confusion of \<open>a\<close> with \<open>x\<close> and the
  sample 200.
\<close>

theorem loadText_keeps_confusions_and_latencies:
  "confusions (loadText (js ''cd'') 2000
     (handleKeys [(js ''x'', at_time 1100), (js ''a'', at_time 1200)]
        (loadText (js ''ab'') 1000 fresh_engine)))
     = [(js ''a'' @ [arrow] @ js ''x'', 1)] \<and>
   latencies (loadText (js ''cd'') 2000
     (handleKeys [(js ''x'', at_time 1100), (js ''a'', at_time 1200)]
        (loadText (js ''ab'') 1000 fresh_engine))) = [200] \<and>
   latencyBuckets (loadText (js ''cd'') 2000
     (handleKeys [(js ''x'', at_time 1100), (js ''a'', at_time 1200)]
        (loadText (js ''ab'') 1000 fresh_engine))) = [(200, 1)] \<and>
   confusions (resetSession
     (handleKeys [(js ''x'', at_time 1100), (js ''a'', at_time 1200)]
        (loadText (js ''ab'') 1000 fresh_engine))) = [] \<and>
   latencies (resetSession
     (handleKeys [(js ''x'', at_time 1100), (js ''a'', at_time 1200)]
        (loadText (js ''ab'') 1000 fresh_engine))) = []"
  by code_simp

subsection \<open>Words per minute\<close>

text \<open>
  Claim C7, at an input where the code departs from it. Lemma \<open>wpm_formula\<close> gives the
  value by cases. When the first correct keystroke is timed at the very clock value of the
  load, the division is by zero minutes and yields an infinity, which \<open>|| 0\<close> lets
  through: the reported and the stored words per minute are infinite, not 0.
\<close>

theorem wpm_infinite_at_zero_elapsed:
  "timestamps (handleKey (js ''a'') (at_time 1000) (loadText (js ''a'') 1000 fresh_engine)) = [1000] \<and>
   sessionStart (handleKey (js ''a'') (at_time 1000) (loadText (js ''a'') 1000 fresh_engine)) = Some 1000 \<and>
   wpm (handleKey (js ''a'') (at_time 1000) (loadText (js ''a'') 1000 fresh_engine)) = PosInfinity \<and>
   map rec_wpm (storage (handleKey (js ''a'') (at_time 1000) (loadText (js ''a'') 1000 fresh_engine)))
     = [PosInfinity]"
  by code_simp

section \<open>Properties of the suggestion engine\<close>

subsection \<open>The aggregate in closed form\<close>








lemma add_entries_Nil: "add_entries f [] agg = agg"
  by (simp add: add_entries_def)

lemma add_entries_Cons:
  "add_entries f ((c, n) # es) agg = add_entries f es (map_set c (get_or_zero agg c + f n) agg)"
  by (simp add: add_entries_def)












subsection \<open>The ranking\<close>



subsection \<open>The store is left as it was\<close>

lemma extends_refl: "extends h h"
  by (simp add: extends_def)

lemma extends_append: "extends h0 (h0 @ xs)"
  by (simp add: extends_def)

lemma heap_get_extends:
  assumes "extends h0 h" and "heap_get h0 a = Some v"
  shows "heap_get h a = Some v"
proof -
  from assms(2) have a: "a < length h0" and v: "h0 ! a = v"
    by (auto simp: heap_get_def split: if_splits)
  from assms(1) have "take (length h0) h ! a = h0 ! a" by (simp add: extends_def)
  with a have "h ! a = h0 ! a" by simp
  with a v assms(1) show ?thesis by (simp add: heap_get_def extends_def)
qed

lemma get_errorMap_extends:
  "extends h0 h \<Longrightarrow> get_errorMap h0 a = Some es \<Longrightarrow> get_errorMap h a = Some es"
  by (auto simp: get_errorMap_def dest: heap_get_extends split: option.splits obj.splits)

lemma get_array_extends:
  "extends h0 h \<Longrightarrow> get_array h0 a = Some refs \<Longrightarrow> get_array h a = Some refs"
  by (auto simp: get_array_def dest: heap_get_extends split: option.splits obj.splits)

lemma session_view_extends:
  assumes e: "extends h0 h" and v: "session_view h0 s = Some v"
  shows "session_view h s = Some v"
proof -
  from v obtain em where g: "heap_get h0 s = Some (SessionObj em)"
    by (auto simp: session_view_def split: option.splits obj.splits)
  from heap_get_extends [OF e g] have g': "heap_get h s = Some (SessionObj em)" .
  show ?thesis
  proof (cases em)
    case None
    with v g g' show ?thesis by (simp add: session_view_def)
  next
    case (Some m)
    with v g obtain z where z: "get_errorMap h0 m = Some z" and vz: "v = Some z"
      by (auto simp: session_view_def)
    from get_errorMap_extends [OF e z] Some g' vz show ?thesis
      by (simp add: session_view_def)
  qed
qed

lemma session_entries_view:
  "session_view h s = Some v \<Longrightarrow> session_entries h s = Some (entries_or_empty v)"
  by (auto simp: session_view_def session_entries_def entries_or_empty_def
      split: option.splits obj.splits)

lemma current_view_extends:
  "extends h0 h \<Longrightarrow> current_view h0 c = Some v \<Longrightarrow> current_view h c = Some v"
  by (auto simp: current_view_def dest: get_errorMap_extends split: option.splits)

lemma current_entries_view:
  "current_view h c = Some v \<Longrightarrow> current_entries h c = Some (entries_or_empty v)"
  by (auto simp: current_view_def current_entries_def entries_or_empty_def split: option.splits)

lemma those_views_extends:
  "extends h0 h \<Longrightarrow> those (map (session_view h0) ss) = Some vs \<Longrightarrow>
     those (map (session_view h) ss) = Some vs"
proof (induction ss arbitrary: vs)
  case Nil
  then show ?case by simp
next
  case (Cons s ss)
  then show ?case
    by (auto simp: session_view_extends split: option.splits)
qed

lemma history_view_extends:
  "extends h0 h \<Longrightarrow> history_view h0 a = Some hs \<Longrightarrow> history_view h a = Some hs"
  by (auto simp: history_view_def get_array_extends those_views_extends
      split: Option.bind_splits)

lemma heap_set_same: "a < length h \<Longrightarrow> h ! a = v \<Longrightarrow> heap_set a v h = h"
  by (simp add: heap_set_def list_update_same_conv)

lemma add_entries_h_result:
  "a < length h \<Longrightarrow> h ! a = MapObj m \<Longrightarrow>
     add_entries_h a f es h = Some (heap_set a (MapObj (add_entries f es m)) h)"
proof (induction es arbitrary: h m)
  case Nil
  then show ?case by (simp add: add_entries_Nil heap_set_same)
next
  case (Cons e es)
  obtain c n where e: "e = (c, n)" by (cases e)
  let ?m' = "map_set c (get_or_zero m c + f n) m"
  let ?h' = "heap_set a (MapObj ?m') h"
  from Cons.prems have step: "aggregate_add a c (f n) h = Some ?h'"
    by (simp add: aggregate_add_def get_map_def heap_get_def)
  from Cons.prems have "a < length ?h'" "?h' ! a = MapObj ?m'"
    by (simp_all add: heap_set_def)
  from Cons.IH [OF this] step show ?case
    by (simp add: e add_entries_Cons heap_set_def)
qed

lemma add_sessions_h_result:
  "a < length h \<Longrightarrow> h ! a = MapObj m \<Longrightarrow> length h0 \<le> a \<Longrightarrow> extends h0 h \<Longrightarrow>
   those (map (session_view h0) ss) = Some vs \<Longrightarrow>
     add_sessions_h a ss h
       = Some (heap_set a (MapObj (fold (\<lambda>s acc. add_entries of_nat (entries_or_empty s) acc) vs m)) h)"
proof (induction ss arbitrary: h m vs)
  case Nil
  then show ?case by (auto simp: heap_set_same)
next
  case (Cons s ss)
  from Cons.prems(5) obtain v vs' where
    v: "session_view h0 s = Some v" and vs': "those (map (session_view h0) ss) = Some vs'"
    and vs: "vs = v # vs'"
    by (auto split: option.splits)
  let ?m' = "add_entries of_nat (entries_or_empty v) m"
  let ?h' = "heap_set a (MapObj ?m') h"
  from session_view_extends [OF Cons.prems(4) v]
  have es: "session_entries h s = Some (entries_or_empty v)" by (rule session_entries_view)
  from Cons.prems have step: "add_entries_h a of_nat (entries_or_empty v) h = Some ?h'"
    by (simp add: add_entries_h_result)
  from Cons.prems have h': "a < length ?h'" "?h' ! a = MapObj ?m'" "extends h0 ?h'"
    by (simp_all add: heap_set_def extends_def)
  from Cons.IH [OF h'(1,2) Cons.prems(3) h'(3) vs'] es step show ?case
    by (simp add: vs heap_set_def)
qed

lemma generateSuggestions_h_result:
  assumes hv: "history_view h hist = Some hs" and cv: "current_view h cur = Some c"
  shows "\<exists>agg refs ps.
           generateSuggestions_h hist cur n h
             = Some (generateSuggestions hs c n,
                     h @ [MapObj agg, ArrayObj refs, PairsObj ps, PairsObj (generateSuggestions hs c n)])"
proof -
  from hv obtain refs where refs: "get_array h hist = Some refs"
    and views: "those (map (session_view h) refs) = Some hs"
    by (auto simp: history_view_def split: Option.bind_splits)
  let ?a = "length h"
  let ?h2 = "h @ [MapObj [], ArrayObj refs]"
  let ?A1 = "fold (\<lambda>s acc. add_entries of_nat (entries_or_empty s) acc) hs []"
  let ?A2 = "add_entries current_weight (entries_or_empty c) ?A1"
  let ?h3 = "h @ [MapObj ?A1, ArrayObj refs]"
  let ?h4 = "h @ [MapObj ?A2, ArrayObj refs]"
  let ?scored = "map (\<lambda>(char, count). (char, count * rarityBoost char)) ?A2"
  let ?sorted = "sort_key (\<lambda>(char, score). - score) ?scored"
  have e2: "extends h ?h2" by (rule extends_append)
  have g1: "get_array (h @ [MapObj []]) hist = Some refs"
    using get_array_extends [OF extends_append refs] .
  have g2: "get_array ?h2 (Suc ?a) = Some refs"
    by (simp add: get_array_def heap_get_def nth_append)
  have s3: "add_sessions_h ?a refs ?h2 = Some ?h3"
    using add_sessions_h_result [of ?a ?h2 "[]" h refs hs] e2 views
    by (simp add: heap_set_def nth_append)
  have e3: "extends h ?h3" by (rule extends_append)
  have c3: "current_entries ?h3 cur = Some (entries_or_empty c)"
    using current_view_extends [OF e3 cv] by (rule current_entries_view)
  have s4: "add_entries_h ?a current_weight (entries_or_empty c) ?h3 = Some ?h4"
    using add_entries_h_result [of ?a ?h3 ?A1 current_weight "entries_or_empty c"]
    by (simp add: heap_set_def nth_append)
  have g4: "get_map ?h4 ?a = Some ?A2"
    by (simp add: get_map_def heap_get_def nth_append)
  have gs: "generateSuggestions hs c n = take n ?sorted"
    by (simp add: generateSuggestions_def Let_def)
  have "generateSuggestions_h hist cur n h
      = Some (take n ?sorted, h @ [MapObj ?A2, ArrayObj refs, PairsObj ?sorted, PairsObj (take n ?sorted)])"
    by (simp add: generateSuggestions_h_def alloc_def g1 g2 s3 c3 s4 g4 get_pairs_def heap_get_def
        heap_set_def nth_append)
  then show ?thesis unfolding gs by blast
qed

lemma generateSuggestions_h_not_an_array:
  "generateSuggestions_h 0 None 5 [ErrorMapObj []] = None"
  by code_simp

text \<open>
  Claim C9. In any store where the arguments denote a history and a current error map, a
  call returns what the function over those values returns, so equal arguments give equal
  results; every object that was in the store before the call, the history array, the
  session records and the error maps among them, is the same after it; and a second call
  with the same arguments, made in the store the first call left, returns the same result.
\<close>

theorem generateSuggestions_pure:
  assumes "history_view h hist = Some hs" and "current_view h cur = Some c"
  shows "\<exists>h' h''. generateSuggestions_h hist cur n h = Some (generateSuggestions hs c n, h') \<and>
           take (length h) h' = h \<and>
           history_view h' hist = Some hs \<and> current_view h' cur = Some c \<and>
           generateSuggestions_h hist cur n h' = Some (generateSuggestions hs c n, h'')"
proof -
  from generateSuggestions_h_result [OF assms, of n] obtain agg refs ps where
    first: "generateSuggestions_h hist cur n h
      = Some (generateSuggestions hs c n,
              h @ [MapObj agg, ArrayObj refs, PairsObj ps, PairsObj (generateSuggestions hs c n)])"
    by blast
  let ?h' = "h @ [MapObj agg, ArrayObj refs, PairsObj ps, PairsObj (generateSuggestions hs c n)]"
  have e: "extends h ?h'" by (rule extends_append)
  have hv: "history_view ?h' hist = Some hs" using history_view_extends [OF e assms(1)] .
  have cv: "current_view ?h' cur = Some c" using current_view_extends [OF e assms(2)] .
  from generateSuggestions_h_result [OF hv cv, of n] obtain h'' where
    second: "generateSuggestions_h hist cur n ?h' = Some (generateSuggestions hs c n, h'')"
    by blast
  have "take (length h) ?h' = h" by simp
  with first hv cv second show ?thesis by blast
qed

theorem generateSuggestions_pure_witness:
  "history_view example_heap 2 = Some [Some [(js ''t'', 3)]] \<and>
   current_view example_heap (Some 3) = Some (Some [(js ''t'', 2)]) \<and>
   (\<exists>h' h''. generateSuggestions_h 2 (Some 3) 10 example_heap = Some ([(js ''t'', 54 / 10)], h') \<and>
      take 4 h' = example_heap \<and>
      generateSuggestions_h 2 (Some 3) 10 h' = Some ([(js ''t'', 54 / 10)], h''))"
proof -
  have h1: "history_view example_heap 2 = Some [Some [(js ''t'', 3)]]" by code_simp
  have h2: "current_view example_heap (Some 3) = Some (Some [(js ''t'', 2)])" by code_simp
  have r: "generateSuggestions [Some [(js ''t'', 3)]] (Some [(js ''t'', 2)]) 10 = [(js ''t'', 54 / 10)]"
    by code_simp
  have l: "length example_heap = 4" by (simp add: example_heap_def)
  from generateSuggestions_pure [OF h1 h2, of 10] h1 h2 show ?thesis
    unfolding r l by blast
qed

end
